theory Spec2Isabelle
  imports Main
begin

section \<open>Python values and errors\<close>

text \<open>
  The wizard modules of adaptune (\<^verbatim>\<open>preferences.py\<close>, \<^verbatim>\<open>preference.py\<close>,
  \<^verbatim>\<open>config.py\<close>) work on values loaded from JSON. A selectable label is a
  \<^verbatim>\<open>KeyType = Union[str, int, float]\<close>; strings and integers are modelled, floats
  are not (no property below depends on a float).
\<close>

datatype key = Str string | Num int

text \<open>The exceptions the modelled statements can raise.\<close>

datatype error = KeyError | IndexError | TypeError | ZeroDivisionError

text \<open>Truthiness of a label, as tested by \<^verbatim>\<open>if selected:\<close> and \<^verbatim>\<open>if result:\<close>.\<close>

fun truthy :: "key \<Rightarrow> bool" where
  "truthy (Str s) = (s \<noteq> [])"
| "truthy (Num i) = (i \<noteq> 0)"

text \<open>\<^verbatim>\<open>str(x)\<close>: a string is itself, an integer is written in decimal.\<close>

function digits :: "nat \<Rightarrow> string" where
  "digits n = (if n < 10 then [''0123456789'' ! n]
               else digits (n div 10) @ [''0123456789'' ! (n mod 10)])"
  by pat_completeness auto
termination
  by (relation "measure id") auto

declare digits.simps [simp del]

fun py_str :: "key \<Rightarrow> string" where
  "py_str (Str s) = s"
| "py_str (Num i) = (if i < 0 then CHR ''-'' # digits (nat (- i)) else digits (nat i))"

text \<open>
  The position that Python's index \<open>i\<close> names in a sequence of \<open>n\<close> items: the
  indices from \<open>- n\<close> to \<open>- 1\<close> count from the end, and an index outside
  \<open>[- n, n)\<close> names none.
\<close>

definition py_position :: "nat \<Rightarrow> int \<Rightarrow> nat option" where
  "py_position n i =
     (if 0 \<le> i \<and> i < int n then Some (nat i)
      else if i < 0 \<and> 0 \<le> int n + i then Some (nat (int n + i))
      else None)"

text \<open>\<^verbatim>\<open>xs[i]\<close> on a list; IndexError when no position is named.\<close>

definition py_index :: "'a list \<Rightarrow> int \<Rightarrow> error + 'a" where
  "py_index xs i =
     (case py_position (length xs) i of None \<Rightarrow> Inl IndexError | Some j \<Rightarrow> Inr (xs ! j))"

section \<open>The choice list: InquirerControl\<close>

text \<open>
  \<^verbatim>\<open>InquirerControl\<close> is the same class in the three wizard modules (the index field
  is called \<^verbatim>\<open>selected_index\<close> in preferences.py and \<^verbatim>\<open>selected_option_index\<close>
  in preference.py and config.py). A new control starts at index 0, not answered.
\<close>

record inquirer_control =
  ic_nodes :: "key list"
  selected_index :: int
  answered :: bool

definition InquirerControl :: "key list \<Rightarrow> inquirer_control" where
  "InquirerControl ns = \<lparr>ic_nodes = ns, selected_index = 0, answered = False\<rparr>"

definition choice_count :: "inquirer_control \<Rightarrow> int" where
  "choice_count c = int (length (ic_nodes c))"

definition get_selection :: "inquirer_control \<Rightarrow> error + key" where
  "get_selection c = py_index (ic_nodes c) (selected_index c)"

text \<open>
  The key bindings \<^verbatim>\<open>down\<close> and \<^verbatim>\<open>up\<close>:
  \<^verbatim>\<open>selected_index = (selected_index + 1) % choice_count\<close> and the same with \<^verbatim>\<open>- 1\<close>.
  Python's \<^verbatim>\<open>%\<close> raises ZeroDivisionError on an empty choice list; for a positive
  divisor it agrees with \<open>mod\<close> on \<open>int\<close>.
\<close>

definition move_cursor_down :: "inquirer_control \<Rightarrow> error + inquirer_control" where
  "move_cursor_down c =
     (if choice_count c = 0 then Inl ZeroDivisionError
      else Inr (c\<lparr>selected_index := (selected_index c + 1) mod choice_count c\<rparr>))"

definition move_cursor_up :: "inquirer_control \<Rightarrow> error + inquirer_control" where
  "move_cursor_up c =
     (if choice_count c = 0 then Inl ZeroDivisionError
      else Inr (c\<lparr>selected_index := (selected_index c - 1) mod choice_count c\<rparr>))"

section \<open>Configuration dictionaries\<close>

text \<open>
  \<^verbatim>\<open>confdict\<close> (config.json) and \<^verbatim>\<open>config\<close> (params.json) are nested Python
  dictionaries. Two dictionaries are equal when they hold the same items, whatever the
  insertion order, so a dictionary is a map from keys to values.
\<close>

datatype conf = Val key | Arr "conf list" | Obj "key \<Rightarrow> conf option"

text \<open>\<^verbatim>\<open>c[k]\<close>\<close>

fun getitem :: "conf \<Rightarrow> key \<Rightarrow> error + conf" where
  "getitem (Obj m) k = (case m k of None \<Rightarrow> Inl KeyError | Some c \<Rightarrow> Inr c)"
| "getitem (Arr xs) (Num i) = py_index xs i"
| "getitem (Arr xs) (Str k) = Inl TypeError"
| "getitem (Val (Str s)) (Num i) =
     (case py_index s i of Inl e \<Rightarrow> Inl e | Inr ch \<Rightarrow> Inr (Val (Str [ch])))"
| "getitem (Val (Str s)) (Str k) = Inl TypeError"
| "getitem (Val (Num n)) k = Inl TypeError"

text \<open>\<^verbatim>\<open>c[k] = v\<close>\<close>

fun setitem :: "conf \<Rightarrow> key \<Rightarrow> conf \<Rightarrow> error + conf" where
  "setitem (Obj m) k v = Inr (Obj (m(k \<mapsto> v)))"
| "setitem (Arr xs) (Num i) v =
     (case py_position (length xs) i of
        None \<Rightarrow> Inl IndexError
      | Some j \<Rightarrow> Inr (Arr (xs[j := v])))"
| "setitem (Arr xs) (Str k) v = Inl TypeError"
| "setitem (Val a) k v = Inl TypeError"

text \<open>
  \<^verbatim>\<open>c[k1][k2] = v\<close>: the inner dictionary is fetched and updated in place; the model
  writes the updated inner dictionary back under \<open>k1\<close>.
\<close>

definition setitem2 :: "conf \<Rightarrow> key \<Rightarrow> key \<Rightarrow> conf \<Rightarrow> error + conf" where
  "setitem2 c k1 k2 v =
     (case getitem c k1 of
        Inl e \<Rightarrow> Inl e
      | Inr sub \<Rightarrow>
          (case setitem sub k2 v of
             Inl e \<Rightarrow> Inl e
           | Inr sub' \<Rightarrow> setitem c k1 sub'))"

text \<open>\<^verbatim>\<open>c[k1][k2]\<close>, read.\<close>

definition getitem2 :: "conf \<Rightarrow> key \<Rightarrow> key \<Rightarrow> error + conf" where
  "getitem2 c k1 k2 = (case getitem c k1 of Inl e \<Rightarrow> Inl e | Inr sub \<Rightarrow> getitem sub k2)"

section \<open>preferences.py: PreferenceApp\<close>

text \<open>
  The settings tree of \<^verbatim>\<open>.attributes.json\<close>: a dictionary of named children (in
  presentation order, keys distinct), a list of selectable values, or any other JSON value.
\<close>

datatype attr = AttrDict "(key \<times> attr) list" | AttrList "key list" | AttrOther key

text \<open>
  The fields of \<^verbatim>\<open>PreferenceApp\<close> that navigation reads and writes. Layout, key
  bindings, style and the calls into prompt\_toolkit (\<^verbatim>\<open>set_layout\<close>,
  \<^verbatim>\<open>invalidate\<close>, \<^verbatim>\<open>reset\<close>, \<^verbatim>\<open>exit\<close>) touch none of them and are left out.
  \<^verbatim>\<open>container\<close> is never assigned and stays None.
\<close>

record preference_app =
  breadcrumb :: string
  control :: inquirer_control
  confdict :: conf
  attr_header :: attr
  root :: "key list"
  attributes :: attr
  nodes :: "key list"
  current_node :: key
  all_done :: bool

definition set_header :: "preference_app \<Rightarrow> preference_app" where
  "set_header s =
     s\<lparr>attributes := attr_header s, nodes := root s, control := InquirerControl (root s)\<rparr>"

text \<open>
  \<^verbatim>\<open>_initialize\<close>: back to the tree root for the next round (the rest of it is layout
  and key bindings).
\<close>

definition initialize :: "preference_app \<Rightarrow> preference_app" where
  "initialize s = set_header s"

text \<open>
  \<^verbatim>\<open>__init__\<close> after \<^verbatim>\<open>get_config\<close> has loaded \<^verbatim>\<open>config.json\<close> into
  \<open>cd\<close> and \<^verbatim>\<open>.attributes.json\<close> into \<open>hdr\<close> with its key list \<open>rt\<close>; the
  other fields have their class-level defaults. (\<^verbatim>\<open>_eval_values\<close>, which replaces
  the values stored under a key \<^verbatim>\<open>"type"\<close>, is not modelled.)
\<close>

definition PreferenceApp :: "conf \<Rightarrow> attr \<Rightarrow> key list \<Rightarrow> preference_app" where
  "PreferenceApp cd hdr rt =
     initialize \<lparr>breadcrumb = [], control = InquirerControl [], confdict = cd,
       attr_header = hdr, root = rt, attributes = AttrDict [], nodes = [],
       current_node = Str [], all_done = False\<rparr>"

text \<open>
  The key list that \<^verbatim>\<open>_load_conf\<close> returns for the content of a JSON file: the keys
  of a dictionary without \<^verbatim>\<open>"__description__"\<close>, and no key for anything else.
\<close>

fun keylist :: "attr \<Rightarrow> key list" where
  "keylist (AttrDict d) = filter (\<lambda>k. k \<noteq> Str ''__description__'') (map fst d)"
| "keylist (AttrList l) = []"
| "keylist (AttrOther a) = []"

definition set_child_control :: "key \<Rightarrow> attr \<Rightarrow> preference_app \<Rightarrow> error + preference_app" where
  "set_child_control ky attrs s =
     (case attrs of
        AttrDict d \<Rightarrow>
          (case map_of d ky of
             None \<Rightarrow> Inl KeyError
           | Some (AttrDict c) \<Rightarrow>
               Inr (s\<lparr>attributes := AttrDict c, nodes := map fst c,
                       control := InquirerControl (map fst c)\<rparr>)
           | Some (AttrList l) \<Rightarrow>
               Inr (s\<lparr>attributes := AttrList [], nodes := l, control := InquirerControl l\<rparr>)
           | Some (AttrOther a) \<Rightarrow>
               Inr (s\<lparr>control := InquirerControl (nodes s)\<rparr>))
      | AttrList l \<Rightarrow> Inr (s\<lparr>control := InquirerControl (nodes s)\<rparr>)
      | AttrOther a \<Rightarrow> Inr (s\<lparr>control := InquirerControl (nodes s)\<rparr>))"

text \<open>
  \<^verbatim>\<open>_work_before_node\<close>; \<open>devs\<close> are the device names that
  \<^verbatim>\<open>sd.query_devices()\<close> reports. The result is None for Python's False.
\<close>

definition work_before_node ::
  "string list \<Rightarrow> key \<Rightarrow> attr \<Rightarrow> preference_app \<Rightarrow> error + (key option \<times> preference_app)" where
  "work_before_node devs ky attr s =
     (case attr of
        AttrDict d \<Rightarrow>
          if ky \<in> set [Str ''main'', Str ''monitor'', Str ''input''] then
            Inr (None, s\<lparr>current_node := ky, attributes := AttrList [],
                          nodes := map Str devs, control := InquirerControl (map Str devs)\<rparr>)
          else
            (case set_child_control ky attr s of
               Inl e \<Rightarrow> Inl e
             | Inr s' \<Rightarrow> Inr (None, s'))
      | AttrList l \<Rightarrow>
          Inr (Some ky,
            (if py_str (current_node s) \<in> set [''main'', ''monitor'', ''input''] then s
             else s\<lparr>current_node := ky\<rparr>)\<lparr>attributes := AttrList []\<rparr>)
      | AttrOther a \<Rightarrow> Inr (None, s))"

text \<open>\<^verbatim>\<open>_setval_if_key_is_node\<close>: the routing chain, then the post-processing.\<close>

definition setval_if_key_is_node :: "key \<Rightarrow> key \<Rightarrow> preference_app \<Rightarrow> error + preference_app" where
  "setval_if_key_is_node key_prev selected s =
     (case
        (if key_prev \<in> set [Str ''rate'', Str ''periodsize'', Str ''channels''] then
           setitem2 (confdict s) (Str ''hw_params'') key_prev (Val selected)
         else if key_prev \<in> set [Str ''alsa'', Str ''sounddevice''] then
           setitem2 (confdict s) (Str ''hw_params'') (Str ''formatname'') (Val selected)
         else if key_prev = Str ''w'' then
           setitem2 (confdict s) (Str ''filter_params'') key_prev (Val selected)
         else if key_prev \<in> set [Str ''filter_domain'', Str ''filter_algo''] then
           setitem (confdict s) key_prev (Val selected)
         else if key_prev \<in> set [Str ''main'', Str ''monitor'', Str ''input''] then
           setitem2 (confdict s) (Str ''devices'') key_prev (Val selected)
         else Inr (confdict s))
      of
        Inl e \<Rightarrow> Inl e
      | Inr c \<Rightarrow>
          Inr (s\<lparr>confdict := c, control := (control s)\<lparr>answered := False\<rparr>,
                  all_done := True\<rparr>))"

definition select_index ::
  "string list \<Rightarrow> key \<Rightarrow> attr \<Rightarrow> preference_app \<Rightarrow> error + preference_app" where
  "select_index devs ky attrs s =
     (case work_before_node devs ky attrs s of
        Inl e \<Rightarrow> Inl e
      | Inr (None, s') \<Rightarrow> Inr s'
      | Inr (Some result, s') \<Rightarrow>
          if truthy result then setval_if_key_is_node (current_node s') result s'
          else Inr s')"

text \<open>
  \<^verbatim>\<open>get_prompt_tokens\<close>, the render callback: when the control is answered with a
  truthy label, the breadcrumb is extended and \<^verbatim>\<open>select_index\<close> runs. The token list
  it returns for display is left out. (\<^verbatim>\<open>if self.control:\<close> holds for every control
  object.)
\<close>

definition get_prompt_tokens :: "string list \<Rightarrow> preference_app \<Rightarrow> error + preference_app" where
  "get_prompt_tokens devs s =
     (if answered (control s) then
        (case get_selection (control s) of
           Inl e \<Rightarrow> Inl e
         | Inr selected \<Rightarrow>
             if truthy selected then
               (let s1 = (if breadcrumb s \<noteq> [] then s\<lparr>breadcrumb := breadcrumb s @ '' >''\<rparr>
                          else s);
                    s2 = s1\<lparr>breadcrumb := breadcrumb s1 @ '' '' @ py_str selected\<rparr>
                in select_index devs selected (attributes s2) s2)
             else Inr s)
      else Inr s)"

text \<open>
  One choice of the operator: the click handler \<^verbatim>\<open>_select_item\<close> of entry \<open>i\<close>
  (the same state as moving the cursor to \<open>i\<close> and pressing enter), then the render.
\<close>

definition select_item_click :: "int \<Rightarrow> preference_app \<Rightarrow> preference_app" where
  "select_item_click i s = s\<lparr>control := (control s)\<lparr>selected_index := i, answered := True\<rparr>\<rparr>"

definition pick :: "string list \<Rightarrow> int \<Rightarrow> preference_app \<Rightarrow> error + preference_app" where
  "pick devs i s = get_prompt_tokens devs (select_item_click i s)"

fun navigate :: "string list \<Rightarrow> int list \<Rightarrow> preference_app \<Rightarrow> error + preference_app" where
  "navigate devs [] s = Inr s"
| "navigate devs (i # js) s =
     (case pick devs i s of Inl e \<Rightarrow> Inl e | Inr s' \<Rightarrow> navigate devs js s')"

text \<open>The labels a run of \<open>navigate\<close> selects, in order.\<close>

fun chosen :: "string list \<Rightarrow> int list \<Rightarrow> preference_app \<Rightarrow> key list" where
  "chosen devs [] s = []"
| "chosen devs (i # js) s =
     (case get_selection (control (select_item_click i s)) of
        Inl e \<Rightarrow> []
      | Inr label \<Rightarrow>
          (case pick devs i s of Inl e \<Rightarrow> [] | Inr s' \<Rightarrow> label # chosen devs js s'))"

text \<open>
  The breadcrumb string that lists the labels \<open>ls\<close>: each label after a space, the
  labels separated by \<^verbatim>\<open>" >"\<close>, as in \<^verbatim>\<open>" hw_params > rate"\<close>.
\<close>

definition breadcrumb_of :: "key list \<Rightarrow> string" where
  "breadcrumb_of ls =
     (case ls of [] \<Rightarrow> [] | l # rest \<Rightarrow> '' '' @ py_str l @ concat (map (\<lambda>x. '' > '' @ py_str x) rest))"

text \<open>The leaf-keys that the chain of \<^verbatim>\<open>_setval_if_key_is_node\<close> tests for.\<close>

definition routing_keys :: "key list" where
  "routing_keys =
     [Str ''rate'', Str ''periodsize'', Str ''channels'', Str ''alsa'', Str ''sounddevice'',
      Str ''w'', Str ''filter_domain'', Str ''filter_algo'',
      Str ''main'', Str ''monitor'', Str ''input'']"

text \<open>
  The routing table that the chain of \<^verbatim>\<open>_setval_if_key_is_node\<close> implements: the
  path in \<^verbatim>\<open>confdict\<close> under which the value of a leaf-key is stored, None for a
  leaf-key that no branch handles.
\<close>

definition destination :: "key \<Rightarrow> key list option" where
  "destination k =
     (if k \<in> set [Str ''rate'', Str ''periodsize'', Str ''channels''] then Some [Str ''hw_params'', k]
      else if k \<in> set [Str ''alsa'', Str ''sounddevice''] then Some [Str ''hw_params'', Str ''formatname'']
      else if k = Str ''w'' then Some [Str ''filter_params'', k]
      else if k \<in> set [Str ''filter_domain'', Str ''filter_algo''] then Some [k]
      else if k \<in> set [Str ''main'', Str ''monitor'', Str ''input''] then Some [Str ''devices'', k]
      else None)"

text \<open>Reading a configuration at a path of one or two keys.\<close>

fun read_at :: "key list \<Rightarrow> conf \<Rightarrow> error + conf" where
  "read_at [a] c = getitem c a"
| "read_at [a, b] c = getitem2 c a b"
| "read_at p c = Inl KeyError"

text \<open>Writing a configuration at a path of one or two keys.\<close>

fun write_at :: "key list \<Rightarrow> conf \<Rightarrow> conf \<Rightarrow> error + conf" where
  "write_at [a] v c = setitem c a v"
| "write_at [a, b] v c = setitem2 c a b v"
| "write_at p v c = Inr c"

text \<open>The chain of \<^verbatim>\<open>_setval_if_key_is_node\<close> as a lookup in the routing table.\<close>

definition route :: "key \<Rightarrow> key \<Rightarrow> conf \<Rightarrow> error + conf" where
  "route k v c = (case destination k of None \<Rightarrow> Inr c | Some p \<Rightarrow> write_at p (Val v) c)"

text \<open>The post-processing of \<^verbatim>\<open>_setval_if_key_is_node\<close>, around the configuration \<open>c\<close>.\<close>

definition post :: "conf \<Rightarrow> preference_app \<Rightarrow> preference_app" where
  "post c s = s\<lparr>confdict := c, control := (control s)\<lparr>answered := False\<rparr>, all_done := True\<rparr>"

text \<open>The value stored for leaf-key \<open>k\<close> in the configuration \<open>c\<close>.\<close>

definition routed_value :: "key \<Rightarrow> conf \<Rightarrow> error + conf" where
  "routed_value k c = (case destination k of None \<Rightarrow> Inl KeyError | Some p \<Rightarrow> read_at p c)"

text \<open>The same, in the configuration a run of the wizard leaves.\<close>

definition routed_after :: "key \<Rightarrow> error + preference_app \<Rightarrow> error + conf" where
  "routed_after k r = (case r of Inl e \<Rightarrow> Inl e | Inr s \<Rightarrow> routed_value k (confdict s))"

text \<open>Two routings, one after the other.\<close>

definition route_twice ::
  "key \<Rightarrow> key \<Rightarrow> key \<Rightarrow> key \<Rightarrow> preference_app \<Rightarrow> error + preference_app" where
  "route_twice k1 v1 k2 v2 s =
     (case setval_if_key_is_node k1 v1 s of
        Inl e \<Rightarrow> Inl e
      | Inr s' \<Rightarrow> setval_if_key_is_node k2 v2 s')"

text \<open>
  The scenario of the spec: the schema \<^verbatim>\<open>{hw_params: {rate: [44100, 48000]}}\<close>, and a
  configuration that holds the rate 44100 and a main device.
\<close>

definition example_attr :: attr where
  "example_attr =
     AttrDict [(Str ''hw_params'', AttrDict [(Str ''rate'', AttrList [Num 44100, Num 48000])])]"

definition example_conf :: conf where
  "example_conf =
     Obj [Str ''hw_params'' \<mapsto> Obj [Str ''rate'' \<mapsto> Val (Num 44100)],
          Str ''devices'' \<mapsto> Obj [Str ''main'' \<mapsto> Val (Str ''default'')]]"

definition example_app :: preference_app where
  "example_app = PreferenceApp example_conf example_attr (keylist example_attr)"

text \<open>A settings tree with the three device positions.\<close>

definition device_attr :: attr where
  "device_attr =
     AttrDict [(Str ''devices'',
       AttrDict [(Str ''main'', AttrList []), (Str ''monitor'', AttrList []),
                 (Str ''input'', AttrList [])])]"

text \<open>The state after the choices hw\_params, rate, 48000 in the scenario.\<close>

definition example_resolved :: preference_app where
  "example_resolved =
     example_app\<lparr>breadcrumb := '' hw_params > rate > 48000'',
       control := \<lparr>ic_nodes = [Num 44100, Num 48000], selected_index = 1, answered = False\<rparr>,
       attributes := AttrList [], nodes := [Num 44100, Num 48000],
       current_node := Num 48000, all_done := True\<rparr>"

section \<open>preference.py: the routing chain of ConfigurationApp\<close>

text \<open>
  The fields of \<^verbatim>\<open>ConfigurationApp\<close> that \<^verbatim>\<open>_pref_conf\<close> and \<^verbatim>\<open>guess\<close>
  touch (\<open>ca_confdict\<close> is its \<^verbatim>\<open>confdict\<close>).
\<close>

record configuration_app =
  ca_confdict :: conf
  want_to_continue :: bool
  finished :: bool
  ic :: inquirer_control
  ic_init :: inquirer_control

text \<open>\<^verbatim>\<open>guess\<close>; \<open>yes\<close> is the answer that \<^verbatim>\<open>yes_no_dialog\<close> returns.\<close>

definition guess :: "bool \<Rightarrow> configuration_app \<Rightarrow> configuration_app" where
  "guess yes s =
     (let s1 = s\<lparr>want_to_continue := yes\<rparr>
      in if want_to_continue s1 then s1\<lparr>ic := ic_init s1\<rparr> else s1\<lparr>finished := True\<rparr>)"

text \<open>What \<^verbatim>\<open>_pref_conf\<close> returns: None after a write, False when no branch is taken.\<close>

datatype pref_result = ReturnsNone | ReturnsFalse

text \<open>A branch of the chain: the write, then \<^verbatim>\<open>guess()\<close>, then falling off the end.\<close>

definition write_then_guess ::
  "bool \<Rightarrow> configuration_app \<Rightarrow> error + conf \<Rightarrow> error + (pref_result \<times> configuration_app)" where
  "write_then_guess yes s r =
     (case r of Inl e \<Rightarrow> Inl e | Inr c \<Rightarrow> Inr (ReturnsNone, guess yes (s\<lparr>ca_confdict := c\<rparr>)))"

text \<open>
  \<^verbatim>\<open>_pref_conf(choice, key)\<close>. A condition \<^verbatim>\<open>choice == "alsa" or "sounddevice"\<close>
  is Python's \<^verbatim>\<open>(choice == "alsa") or "sounddevice"\<close>: the comparison, or else the
  truth value of the string literal.
\<close>

definition pref_conf ::
  "bool \<Rightarrow> key \<Rightarrow> key \<Rightarrow> configuration_app \<Rightarrow> error + (pref_result \<times> configuration_app)" where
  "pref_conf yes choice ky s =
     (if choice = Str ''rate'' then
        write_then_guess yes s (setitem2 (ca_confdict s) (Str ''hw_params'') (Str ''rate'') (Val ky))
      else if choice = Str ''alsa'' \<or> truthy (Str ''sounddevice'') then
        write_then_guess yes s (setitem2 (ca_confdict s) (Str ''hw_params'') (Str ''fomatname'') (Val ky))
      else if choice = Str ''periodsize'' then
        write_then_guess yes s (setitem2 (ca_confdict s) (Str ''hw_params'') (Str ''periodsize'') (Val ky))
      else if choice = Str ''channels'' then
        write_then_guess yes s (setitem2 (ca_confdict s) (Str ''hw_params'') (Str ''channels'') (Val ky))
      else if choice = Str ''mu'' then
        write_then_guess yes s (setitem2 (ca_confdict s) (Str ''filter_params'') (Str ''mu'') (Val ky))
      else if choice = Str ''w'' then
        write_then_guess yes s (setitem2 (ca_confdict s) (Str ''filter_params'') (Str ''w'') (Val ky))
      else if choice = Str ''filter_domain'' then
        write_then_guess yes s (setitem (ca_confdict s) (Str ''filter_domain'') (Val ky))
      else if choice = Str ''filter_algo'' then
        write_then_guess yes s (setitem (ca_confdict s) (Str ''filter_algo'') (Val ky))
      else if choice = Str ''main'' \<or> truthy (Str ''monitor'') \<or> truthy (Str ''input'') then
        write_then_guess yes s (setitem2 (ca_confdict s) (Str ''devices'') choice (Val ky))
      else Inr (ReturnsFalse, s))"

text \<open>A ConfigurationApp over the configuration of the scenario.\<close>

definition example_configuration_app :: configuration_app where
  "example_configuration_app =
     \<lparr>ca_confdict = example_conf, want_to_continue = False, finished = False,
      ic = InquirerControl [Str ''hw:0'', Str ''hw:1''], ic_init = InquirerControl [Str ''devices'']\<rparr>"

section \<open>config.py: dump\_defaults\<close>

text \<open>\<^verbatim>\<open>del c[k]\<close>\<close>

fun delitem :: "conf \<Rightarrow> key \<Rightarrow> error + conf" where
  "delitem (Obj m) k = (case m k of None \<Rightarrow> Inl KeyError | Some c \<Rightarrow> Inr (Obj (m(k := None))))"
| "delitem (Arr xs) (Num i) =
     (case py_position (length xs) i of
        None \<Rightarrow> Inl IndexError
      | Some j \<Rightarrow> Inr (Arr (take j xs @ drop (Suc j) xs)))"
| "delitem (Arr xs) (Str k) = Inl TypeError"
| "delitem (Val a) k = Inl TypeError"

text \<open>
  What a call of \<^verbatim>\<open>dump_defaults\<close> leaves behind: the returned tuple (string and
  dictionary), the lines printed, and the module-level \<^verbatim>\<open>config\<close> afterwards (the
  returned dictionary is that same object).
\<close>

record dump_result =
  returned_str :: string
  returned_dict :: conf
  printed :: "string list"
  config_after :: conf

text \<open>
  \<^verbatim>\<open>dump_defaults(puts, description)\<close> on the module-level \<^verbatim>\<open>config\<close>.
  \<open>dumps indent c\<close> stands for \<^verbatim>\<open>commentjson.dumps(c, indent=...)\<close>.
\<close>

definition dump_defaults ::
  "(nat option \<Rightarrow> conf \<Rightarrow> string) \<Rightarrow> bool \<Rightarrow> bool \<Rightarrow> conf \<Rightarrow> error + dump_result" where
  "dump_defaults dumps puts description config =
     (case (if description = False then delitem config (Str ''__description__'') else Inr config) of
        Inl e \<Rightarrow> Inl e
      | Inr config1 \<Rightarrow>
          Inr \<lparr>returned_str = dumps None config1, returned_dict = config1,
               printed = (if puts then [dumps (Some 4) config1] else []),
               config_after = config1\<rparr>)"


section \<open>filter\_driver.py: FilterDriver\<close>

text \<open>
  Modelled from the spec: \<^verbatim>\<open>FilterModel\<close> (audapter/domain/model.py) is not among the
  source files; only its construction and the calls \<^verbatim>\<open>apply\<close> and \<^verbatim>\<open>.w\<close> are.
  Its state has the constructor's arguments in the order \<^verbatim>\<open>FilterDriver.__init__\<close>
  passes them (algorithm name, shape, step size, coefficient vector, forgetting factor)
  and, from section 4.4 of the spec, the period size the blocks must have. Any further
  state (working buffers, error statistic) lives in the record's extension.
\<close>

record 'a filter_model =
  fm_model :: string
  fm_shape :: nat
  fm_mu :: 'a
  w :: "'a list"
  fm_lambda :: 'a
  fm_periodsize :: nat

datatype engine_error = BlockSizeMismatch | EngineStopped

text \<open>
  Modelled from the spec: \<^verbatim>\<open>FilterModel.apply\<close>, the spec's \<^verbatim>\<open>tune\<close> of section 4.4.
  Both blocks must have exactly \<open>periodSize\<close> samples, else the call fails with
  BlockSizeMismatch. Otherwise each sample pair goes through the adaptation rule of the
  selected algorithm (a pluggable unit, here the parameter \<open>rule\<close>), which gives the
  filtered sample and the updated filter.
\<close>

fun adapt_block ::
  "('a, 'b) filter_model_scheme \<Rightarrow> ('a \<Rightarrow> 'a \<Rightarrow> ('a, 'b) filter_model_scheme \<Rightarrow> 'a \<times> ('a, 'b) filter_model_scheme)
     \<Rightarrow> ('a \<times> 'a) list \<Rightarrow> 'a list \<times> ('a, 'b) filter_model_scheme" where
  "adapt_block fm rule [] = ([], fm)"
| "adapt_block fm rule ((d, x) # rest) =
     (case rule d x fm of
        (y, fm1) \<Rightarrow> (case adapt_block fm1 rule rest of (ys, fm2) \<Rightarrow> (y # ys, fm2)))"

definition apply_filter ::
  "('a \<Rightarrow> 'a \<Rightarrow> ('a, 'b) filter_model_scheme \<Rightarrow> 'a \<times> ('a, 'b) filter_model_scheme)
     \<Rightarrow> ('a, 'b) filter_model_scheme \<Rightarrow> 'a list \<Rightarrow> 'a list
     \<Rightarrow> engine_error + ('a list \<times> ('a, 'b) filter_model_scheme)" where
  "apply_filter rule fm desired observed =
     (if length desired = fm_periodsize fm \<and> length observed = fm_periodsize fm
      then Inr (adapt_block fm rule (zip desired observed))
      else Inl BlockSizeMismatch)"

text \<open>
  \<^verbatim>\<open>FilterDriver\<close>, from the source: its shape and its filter (\<open>filter_fm\<close> is the
  attribute \<^verbatim>\<open>filter_\<close>).
\<close>

record ('a, 'b) filter_driver =
  shape :: nat
  filter_fm :: "('a, 'b) filter_model_scheme"

text \<open>\<^verbatim>\<open>tune\<close>: \<^verbatim>\<open>return self.filter_.apply(desired, data_in)\<close>.\<close>

definition tune ::
  "('a \<Rightarrow> 'a \<Rightarrow> ('a, 'b) filter_model_scheme \<Rightarrow> 'a \<times> ('a, 'b) filter_model_scheme)
     \<Rightarrow> ('a, 'b) filter_driver \<Rightarrow> 'a list \<Rightarrow> 'a list
     \<Rightarrow> engine_error + ('a list \<times> ('a, 'b) filter_driver)" where
  "tune rule drv desired data_in =
     (case apply_filter rule (filter_fm drv) desired data_in of
        Inl e \<Rightarrow> Inl e
      | Inr (out, fm) \<Rightarrow> Inr (out, drv\<lparr>filter_fm := fm\<rparr>))"

text \<open>
  \<^verbatim>\<open>get_filter_weights\<close>: \<^verbatim>\<open>return self.filter_.w\<close>, with the driver it leaves.
\<close>

definition get_filter_weights :: "('a, 'b) filter_driver \<Rightarrow> 'a list \<times> ('a, 'b) filter_driver" where
  "get_filter_weights drv = (w (filter_fm drv), drv)"

section \<open>Cursor movement\<close>

lemma py_index_in_range:
  "0 \<le> i \<Longrightarrow> i < int (length xs) \<Longrightarrow> py_index xs i = Inr (xs ! nat i)"
  by (simp add: py_index_def py_position_def)

text \<open>
  C7: over a non-empty choice list of length n with the index i in [0, n), moving down
  gives index (i + 1) mod n and moving up gives (i - 1) mod n; the new index is again in
  [0, n), and reading the selection there does not raise.
\<close>

theorem move_cursor_wraps:
  assumes "ic_nodes c \<noteq> []"
    and "0 \<le> selected_index c"
    and "selected_index c < choice_count c"
  shows "\<exists>d u. move_cursor_down c = Inr d \<and> move_cursor_up c = Inr u
    \<and> selected_index d = (selected_index c + 1) mod choice_count c
    \<and> selected_index u = (selected_index c - 1) mod choice_count c
    \<and> 0 \<le> selected_index d \<and> selected_index d < choice_count d
    \<and> 0 \<le> selected_index u \<and> selected_index u < choice_count u
    \<and> get_selection d = Inr (ic_nodes c ! nat (selected_index d))
    \<and> get_selection u = Inr (ic_nodes c ! nat (selected_index u))"
proof -
  from assms(1) have pos: "0 < choice_count c"
    by (simp add: choice_count_def)
  define d where "d = c\<lparr>selected_index := (selected_index c + 1) mod choice_count c\<rparr>"
  define u where "u = c\<lparr>selected_index := (selected_index c - 1) mod choice_count c\<rparr>"
  have cd: "choice_count d = choice_count c" and cu: "choice_count u = choice_count c"
    by (simp_all add: d_def u_def choice_count_def)
  have dr: "0 \<le> selected_index d" "selected_index d < choice_count c"
    using pos by (simp_all add: d_def)
  have ur: "0 \<le> selected_index u" "selected_index u < choice_count c"
    using pos by (simp_all add: u_def)
  have gd: "get_selection d = Inr (ic_nodes c ! nat (selected_index d))"
    using py_index_in_range [of "selected_index d" "ic_nodes c"] dr
    by (simp add: get_selection_def choice_count_def d_def)
  have gu: "get_selection u = Inr (ic_nodes c ! nat (selected_index u))"
    using py_index_in_range [of "selected_index u" "ic_nodes c"] ur
    by (simp add: get_selection_def choice_count_def u_def)
  have "move_cursor_down c = Inr d" "move_cursor_up c = Inr u"
    using pos by (simp_all add: move_cursor_down_def move_cursor_up_def d_def u_def)
  moreover have "selected_index d = (selected_index c + 1) mod choice_count c"
    "selected_index u = (selected_index c - 1) mod choice_count c"
    by (simp_all add: d_def u_def)
  ultimately show ?thesis
    using dr ur gd gu cd cu by auto
qed

theorem move_cursor_wraps_witness:
  "ic_nodes \<lparr>ic_nodes = [Num 44100, Num 48000, Num 96000], selected_index = 0, answered = False\<rparr> \<noteq> []
   \<and> (\<exists>d u.
     move_cursor_down \<lparr>ic_nodes = [Num 44100, Num 48000, Num 96000], selected_index = 0, answered = False\<rparr> = Inr d
     \<and> move_cursor_up \<lparr>ic_nodes = [Num 44100, Num 48000, Num 96000], selected_index = 0, answered = False\<rparr> = Inr u
     \<and> selected_index d = 1 \<and> selected_index u = 2
     \<and> get_selection d = Inr (Num 48000) \<and> get_selection u = Inr (Num 96000))"
  using move_cursor_wraps
    [of "\<lparr>ic_nodes = [Num 44100, Num 48000, Num 96000], selected_index = 0, answered = False\<rparr>"]
  by (auto simp: choice_count_def)

section \<open>Evaluating the scenario\<close>

lemmas nav_defs = PreferenceApp_def initialize_def set_header_def
  InquirerControl_def pick_def select_item_click_def get_prompt_tokens_def get_selection_def
  py_index_def py_position_def select_index_def work_before_node_def set_child_control_def
  setval_if_key_is_node_def setitem2_def Let_def

lemmas ex_defs = example_attr_def example_conf_def example_app_def example_resolved_def

lemma py_str_examples:
  "py_str (Num 48000) = ''48000''" "py_str (Num (- 17)) = ''-17''" "py_str (Num 0) = ''0''"
  by (simp_all add: digits.simps)

section \<open>Navigation and routing in the scenario\<close>

text \<open>
  The device positions are routed by the last branch chosen: with the device names hw:0
  and hw:1 reported, the choices devices, main, hw:1 store hw:1 under devices.main.
\<close>

lemma device_choice_is_routed:
  "routed_after (Str ''main'')
     (navigate [''hw:0'', ''hw:1''] [0, 0, 1]
        (PreferenceApp example_conf device_attr (keylist device_attr)))
   = Inr (Val (Str ''hw:1''))"
  by (simp add: nav_defs ex_defs device_attr_def routed_after_def routed_value_def
      destination_def getitem2_def)

text \<open>
  C1: in the scenario \<^verbatim>\<open>{hw_params: {rate: [44100, 48000]}}\<close> the claim expects the
  selection of rate and then 48000 to pass the leaf-key rate to routing and to store 48000
  under hw\_params.rate. The code does not: descending through hw\_params and rate never
  sets \<^verbatim>\<open>current_node\<close>, the leaf step sets it to the selected value, so routing gets
  the key 48000, no branch of the chain matches and hw\_params.rate keeps 44100. Selecting
  rate directly at the tree root, where only hw\_params is a key, raises KeyError.
\<close>

theorem scenario_rate_is_not_written:
  "navigate devs [0, 0, 1] example_app = Inr example_resolved
   \<and> current_node example_resolved = Num 48000
   \<and> confdict example_resolved = confdict example_app
   \<and> getitem2 (confdict example_resolved) (Str ''hw_params'') (Str ''rate'') = Inr (Val (Num 44100))
   \<and> select_index devs (Str ''rate'') (attributes example_app) example_app = Inl KeyError"
  by (simp add: nav_defs ex_defs digits.simps getitem2_def)

section \<open>The breadcrumb\<close>

lemma set_child_control_breadcrumb:
  "set_child_control k a s = Inr s' \<Longrightarrow> breadcrumb s' = breadcrumb s"
  by (auto simp: set_child_control_def split: attr.splits option.splits)

lemma work_before_node_breadcrumb:
  "work_before_node devs k a s = Inr (r, s') \<Longrightarrow> breadcrumb s' = breadcrumb s"
  by (auto simp: work_before_node_def split: attr.splits if_splits sum.splits
      dest: set_child_control_breadcrumb)

lemma setval_breadcrumb:
  "setval_if_key_is_node k v s = Inr s' \<Longrightarrow> breadcrumb s' = breadcrumb s"
  unfolding setval_if_key_is_node_def by (auto split: sum.splits)

lemma select_index_breadcrumb:
  assumes that: "select_index devs k a s = Inr s'"
  shows "breadcrumb s' = breadcrumb s"
proof (cases "work_before_node devs k a s")
  case (Inl e)
  with that show ?thesis
    by (simp add: select_index_def)
next
  case (Inr p)
  obtain r s1 where p: "p = (r, s1)"
    by (cases p)
  have b1: "breadcrumb s1 = breadcrumb s"
    using Inr p by (simp add: work_before_node_breadcrumb)
  show ?thesis
  proof (cases r)
    case None
    with Inr p that b1 show ?thesis
      by (simp add: select_index_def)
  next
    case (Some v)
    with Inr p that b1 show ?thesis
      by (auto simp: select_index_def split: if_splits dest: setval_breadcrumb)
  qed
qed

lemma pick_selection:
  assumes "pick devs i s = Inr s'"
  shows "\<exists>l. get_selection (control (select_item_click i s)) = Inr l
    \<and> breadcrumb s' = (if truthy l then (if breadcrumb s \<noteq> [] then breadcrumb s @ '' >'' else breadcrumb s) @ '' '' @ py_str l else breadcrumb s)"
proof (cases "get_selection (control (select_item_click i s))")
  case (Inl e)
  with assms show ?thesis
    by (simp add: pick_def get_prompt_tokens_def select_item_click_def)
next
  case (Inr l)
  show ?thesis
  proof (cases "truthy l")
    case False
    with Inr assms show ?thesis
      by (auto simp: pick_def get_prompt_tokens_def select_item_click_def)
  next
    case True
    with Inr assms show ?thesis
      by (auto simp: pick_def get_prompt_tokens_def select_item_click_def Let_def
          split: if_splits dest!: select_index_breadcrumb)
  qed
qed

lemma crumbs_nonempty:
  "b \<noteq> [] \<Longrightarrow> foldl (\<lambda>b l. (if b \<noteq> [] then b @ '' >'' else b) @ '' '' @ py_str l) b ls
     = b @ concat (map (\<lambda>x. '' > '' @ py_str x) ls)"
  by (induction ls arbitrary: b) auto

lemma crumbs_empty:
  "foldl (\<lambda>b l. (if b \<noteq> [] then b @ '' >'' else b) @ '' '' @ py_str l) [] ls = breadcrumb_of ls"
proof (cases ls)
  case Nil
  then show ?thesis
    by (simp add: breadcrumb_of_def)
next
  case (Cons a rest)
  then show ?thesis
    using crumbs_nonempty [of "'' '' @ py_str a" rest]
    by (simp add: breadcrumb_of_def)
qed

lemma navigate_breadcrumb:
  "navigate devs js s = Inr s' \<Longrightarrow> \<forall>l\<in>set (chosen devs js s). truthy l \<Longrightarrow>
   breadcrumb s' = foldl (\<lambda>b l. (if b \<noteq> [] then b @ '' >'' else b) @ '' '' @ py_str l) (breadcrumb s) (chosen devs js s)"
proof (induction js arbitrary: s)
  case Nil
  then show ?case by simp
next
  case (Cons i js)
  from Cons.prems(1) obtain s1 where s1: "pick devs i s = Inr s1" and rest: "navigate devs js s1 = Inr s'"
    by (auto split: sum.splits)
  from pick_selection [OF s1] obtain l where l: "get_selection (control (select_item_click i s)) = Inr l"
    and b: "breadcrumb s1 = (if truthy l then (if breadcrumb s \<noteq> [] then breadcrumb s @ '' >'' else breadcrumb s) @ '' '' @ py_str l else breadcrumb s)"
    by blast
  have ch: "chosen devs (i # js) s = l # chosen devs js s1"
    using s1 l by simp
  from Cons.prems(2) have "\<forall>x\<in>set (l # chosen devs js s1). truthy x"
    unfolding ch .
  then have tl: "truthy l" and tr: "\<forall>l\<in>set (chosen devs js s1). truthy l"
    by simp_all
  from Cons.IH [OF rest tr] b tl show ?case
    unfolding ch by simp
qed

text \<open>
  C4, as the code has it: over any run of choices with truthy labels that starts from an
  empty breadcrumb, the breadcrumb afterwards lists every label chosen, in order, the final
  leaf value included; and going back to the tree root (\<^verbatim>\<open>_initialize\<close>) leaves the
  breadcrumb as it is.
\<close>

theorem breadcrumb_lists_every_choice:
  assumes "navigate devs js s = Inr s'" and "breadcrumb s = []"
    and "\<forall>l\<in>set (chosen devs js s). truthy l"
  shows "breadcrumb s' = breadcrumb_of (chosen devs js s)
     \<and> breadcrumb (initialize s') = breadcrumb s'"
proof -
  have "breadcrumb s' = foldl (\<lambda>b l. (if b \<noteq> [] then b @ '' >'' else b) @ '' '' @ py_str l)
      [] (chosen devs js s)"
    using navigate_breadcrumb [OF assms(1) assms(3)] unfolding assms(2) .
  also have "\<dots> = breadcrumb_of (chosen devs js s)"
    by (rule crumbs_empty)
  finally have "breadcrumb s' = breadcrumb_of (chosen devs js s)" .
  moreover have "breadcrumb (initialize s') = breadcrumb s'"
    by (simp add: initialize_def set_header_def)
  ultimately show ?thesis
    by simp
qed

theorem breadcrumb_lists_every_choice_witness:
  "navigate [] [0, 0, 1] example_app = Inr example_resolved
   \<and> breadcrumb example_app = []
   \<and> chosen [] [0, 0, 1] example_app = [Str ''hw_params'', Str ''rate'', Num 48000]
   \<and> breadcrumb example_resolved = breadcrumb_of [Str ''hw_params'', Str ''rate'', Num 48000]
   \<and> breadcrumb (initialize example_resolved) = breadcrumb example_resolved"
proof -
  have n: "navigate [] [0, 0, 1] example_app = Inr example_resolved"
    by (simp add: nav_defs ex_defs digits.simps)
  have c: "chosen [] [0, 0, 1] example_app = [Str ''hw_params'', Str ''rate'', Num 48000]"
    by (simp add: nav_defs ex_defs digits.simps)
  have b: "breadcrumb example_app = []"
    by (simp add: nav_defs ex_defs)
  have t: "\<forall>l\<in>set (chosen [] [0, 0, 1] example_app). truthy l"
    unfolding c by simp
  from breadcrumb_lists_every_choice [OF n b t] n b c show ?thesis
    by simp
qed

text \<open>
  C4 as stated fails in the scenario: when 48000 is resolved the breadcrumb holds
  hw\_params, rate and the leaf value 48000, not the two branch labels alone, and after the
  return to the tree root it is still not empty.
\<close>

theorem breadcrumb_keeps_leaf_and_is_not_reset:
  "navigate [] [0, 0, 1] example_app = Inr example_resolved
   \<and> chosen [] [0, 0, 1] example_app = [Str ''hw_params'', Str ''rate'', Num 48000]
   \<and> breadcrumb example_resolved = '' hw_params > rate > 48000''
   \<and> breadcrumb example_resolved \<noteq> breadcrumb_of [Str ''hw_params'', Str ''rate'']
   \<and> attributes (initialize example_resolved) = attr_header example_resolved
   \<and> breadcrumb (initialize example_resolved) \<noteq> []"
  by (simp add: nav_defs ex_defs digits.simps breadcrumb_of_def)

section \<open>The routing chain of preferences.py\<close>

lemma setval_as_route:
  "setval_if_key_is_node k v s =
     (case route k v (confdict s) of Inl e \<Rightarrow> Inl e | Inr c \<Rightarrow> Inr (post c s))"
proof -
  have chain:
    "(if k \<in> set [Str ''rate'', Str ''periodsize'', Str ''channels''] then
           setitem2 (confdict s) (Str ''hw_params'') k (Val v)
         else if k \<in> set [Str ''alsa'', Str ''sounddevice''] then
           setitem2 (confdict s) (Str ''hw_params'') (Str ''formatname'') (Val v)
         else if k = Str ''w'' then
           setitem2 (confdict s) (Str ''filter_params'') k (Val v)
         else if k \<in> set [Str ''filter_domain'', Str ''filter_algo''] then
           setitem (confdict s) k (Val v)
         else if k \<in> set [Str ''main'', Str ''monitor'', Str ''input''] then
           setitem2 (confdict s) (Str ''devices'') k (Val v)
         else Inr (confdict s)) = route k v (confdict s)"
    by (simp add: route_def destination_def)
  show ?thesis
    unfolding setval_if_key_is_node_def chain post_def ..
qed

lemma post_post: "post c2 (post c1 s) = post c2 s"
  by (simp add: post_def)

lemma confdict_post: "confdict (post c s) = c"
  by (simp add: post_def)

lemma setitem2_Str:
  "setitem2 c (Str a) (Str b) v = Inr c' \<longleftrightarrow>
     (\<exists>m sm. c = Obj m \<and> m (Str a) = Some (Obj sm) \<and> c' = Obj (m(Str a \<mapsto> Obj (sm(Str b \<mapsto> v)))))"
  by (cases c) (auto simp: setitem2_def split: option.splits conf.splits sum.splits key.splits elim: setitem.elims)

lemma setitem_Str:
  "setitem c (Str a) v = Inr c' \<longleftrightarrow> (\<exists>m. c = Obj m \<and> c' = Obj (m(Str a \<mapsto> v)))"
  by (cases c) auto


lemma sub_sub:
  assumes "a \<noteq> a' \<or> b \<noteq> b'"
    and "setitem2 c (Str a) (Str b) v = Inr c1"
    and "setitem2 c1 (Str a') (Str b') u = Inr c2"
  shows "\<exists>d. setitem2 c (Str a') (Str b') u = Inr d \<and> setitem2 d (Str a) (Str b) v = Inr c2"
  using assms by (auto simp: setitem2_Str fun_upd_twist split: if_splits)

lemma top_sub:
  assumes "a \<noteq> a'"
    and "setitem c (Str a) v = Inr c1"
    and "setitem2 c1 (Str a') (Str b') u = Inr c2"
  shows "\<exists>d. setitem2 c (Str a') (Str b') u = Inr d \<and> setitem d (Str a) v = Inr c2"
  using assms by (auto simp: setitem2_Str setitem_Str fun_upd_twist split: if_splits)

lemma sub_top:
  assumes "a \<noteq> a'"
    and "setitem2 c (Str a') (Str b') u = Inr c1"
    and "setitem c1 (Str a) v = Inr c2"
  shows "\<exists>d. setitem c (Str a) v = Inr d \<and> setitem2 d (Str a') (Str b') u = Inr c2"
  using assms by (auto simp: setitem2_Str setitem_Str fun_upd_twist split: if_splits)

lemma top_top:
  assumes "a \<noteq> a'"
    and "setitem c (Str a) v = Inr c1"
    and "setitem c1 (Str a') u = Inr c2"
  shows "\<exists>d. setitem c (Str a') u = Inr d \<and> setitem d (Str a) v = Inr c2"
  using assms by (auto simp: setitem_Str fun_upd_twist)

lemma destination_shape:
  "destination k = None
   \<or> (\<exists>a. k = Str a \<and> destination k = Some [Str a] \<and> a \<in> {''filter_domain'', ''filter_algo''})
   \<or> (\<exists>a b. destination k = Some [Str a, Str b] \<and> a \<in> {''hw_params'', ''filter_params'', ''devices''})"
  by (simp add: destination_def)

lemma destination_inj:
  assumes "destination k1 = Some p" and "destination k2 = Some p" and "k1 \<noteq> k2"
  shows "k1 \<in> set [Str ''alsa'', Str ''sounddevice''] \<and> k2 \<in> set [Str ''alsa'', Str ''sounddevice'']"
  using assms by (auto simp: destination_def split: if_splits)


lemma route_commute:
  assumes ne: "k1 \<noteq> k2"
    and fmt: "\<not> (k1 \<in> set [Str ''alsa'', Str ''sounddevice''] \<and> k2 \<in> set [Str ''alsa'', Str ''sounddevice''])"
    and r1: "route k1 v1 c = Inr c1"
    and r2: "route k2 v2 c1 = Inr c2"
  shows "\<exists>d. route k2 v2 c = Inr d \<and> route k1 v1 d = Inr c2"
proof -
  consider (n1) "destination k1 = None"
    | (t1) a where "k1 = Str a" "destination k1 = Some [Str a]" "a \<in> {''filter_domain'', ''filter_algo''}"
    | (s1) a b where "destination k1 = Some [Str a, Str b]" "a \<in> {''hw_params'', ''filter_params'', ''devices''}"
    using destination_shape [of k1] by metis
  then show ?thesis
  proof cases
    case n1
    with r1 r2 show ?thesis
      by (simp add: route_def)
  next
    case t1
    consider (n2) "destination k2 = None"
      | (t2) a' where "k2 = Str a'" "destination k2 = Some [Str a']" "a' \<in> {''filter_domain'', ''filter_algo''}"
      | (s2) a' b' where "destination k2 = Some [Str a', Str b']" "a' \<in> {''hw_params'', ''filter_params'', ''devices''}"
      using destination_shape [of k2] by metis
    then show ?thesis
    proof cases
      case n2
      with r1 r2 show ?thesis
        by (simp add: route_def)
    next
      case t2
      with t1 ne have "a \<noteq> a'"
        by auto
      from top_top [OF this, of c "Val v1" c1 "Val v2" c2] r1 r2 t1 t2 show ?thesis
        by (simp add: route_def)
    next
      case s2
      with t1 have "a \<noteq> a'"
        by auto
      from top_sub [OF this, of c "Val v1" c1 b' "Val v2" c2] r1 r2 t1 s2 show ?thesis
        by (simp add: route_def)
    qed
  next
    case s1
    consider (n2) "destination k2 = None"
      | (t2) a' where "k2 = Str a'" "destination k2 = Some [Str a']" "a' \<in> {''filter_domain'', ''filter_algo''}"
      | (s2) a' b' where "destination k2 = Some [Str a', Str b']" "a' \<in> {''hw_params'', ''filter_params'', ''devices''}"
      using destination_shape [of k2] by metis
    then show ?thesis
    proof cases
      case n2
      with r1 r2 show ?thesis
        by (simp add: route_def)
    next
      case t2
      with s1 have "a' \<noteq> a"
        by auto
      from sub_top [OF this, of c b "Val v1" c1 "Val v2" c2] r1 r2 s1 t2 show ?thesis
        by (simp add: route_def)
    next
      case s2
      have "a \<noteq> a' \<or> b \<noteq> b'"
        using destination_inj [OF s1(1) _ ne] s2(1) fmt by auto
      from sub_sub [OF this, of c "Val v1" c1 "Val v2" c2] r1 r2 s1 s2 show ?thesis
        by (simp add: route_def)
    qed
  qed
qed

lemma setitem2_again:
  "(case setitem2 c (Str a) (Str b) v of Inl e \<Rightarrow> Inl e | Inr c1 \<Rightarrow> setitem2 c1 (Str a) (Str b) u)
     = setitem2 c (Str a) (Str b) u"
proof (cases "setitem2 c (Str a) (Str b) v")
  case (Inr c1)
  then show ?thesis
    by (auto simp: setitem2_Str) (simp add: setitem2_def)
next
  case (Inl e)
  then show ?thesis
    by (cases c) (auto simp: setitem2_def split: option.splits sum.splits elim!: setitem.elims getitem.elims)
qed

lemma setitem_again:
  "(case setitem c (Str a) v of Inl e \<Rightarrow> Inl e | Inr c1 \<Rightarrow> setitem c1 (Str a) u) = setitem c (Str a) u"
  by (cases c) auto

lemma route_again:
  "(case route k v1 c of Inl e \<Rightarrow> Inl e | Inr c1 \<Rightarrow> route k v2 c1) = route k v2 c"
proof -
  consider (unroutable) "destination k = None"
    | (top) a where "destination k = Some [Str a]"
    | (sub) a b where "destination k = Some [Str a, Str b]"
    using destination_shape [of k] by metis
  then show ?thesis
  proof cases
    case unroutable
    then show ?thesis
      by (simp add: route_def)
  next
    case top
    then have rk: "route k = (\<lambda>v c. setitem c (Str a) (Val v))"
      by (simp add: route_def fun_eq_iff)
    show ?thesis
      unfolding rk by (rule setitem_again)
  next
    case sub
    then have rk: "route k = (\<lambda>v c. setitem2 c (Str a) (Str b) (Val v))"
      by (simp add: route_def fun_eq_iff)
    show ?thesis
      unfolding rk by (rule setitem2_again)
  qed
qed

lemma setitem2_read:
  "setitem2 c (Str a) (Str b) v = Inr c' \<Longrightarrow> getitem2 c' (Str a) (Str b) = Inr v"
  by (auto simp: setitem2_Str getitem2_def)

lemma setitem_read:
  "setitem c (Str a) v = Inr c' \<Longrightarrow> getitem c' (Str a) = Inr v"
  by (auto simp: setitem_Str)

lemma route_read:
  assumes "k \<in> set routing_keys" and "route k v c = Inr c'"
  shows "routed_value k c' = Inr (Val v)"
proof -
  from assms(1) have "destination k \<noteq> None"
    by (auto simp: routing_keys_def destination_def)
  then consider (top) a where "destination k = Some [Str a]"
    | (sub) a b where "destination k = Some [Str a, Str b]"
    using destination_shape [of k] by metis
  then show ?thesis
  proof cases
    case top
    with assms(2) have "setitem c (Str a) (Val v) = Inr c'"
      by (simp add: route_def)
    from setitem_read [OF this] top show ?thesis
      by (simp add: routed_value_def)
  next
    case sub
    with assms(2) have "setitem2 c (Str a) (Str b) (Val v) = Inr c'"
      by (simp add: route_def)
    from setitem2_read [OF this] sub show ?thesis
      by (simp add: routed_value_def)
  qed
qed

text \<open>
  C2, as the code has it: a leaf-key that no branch of the chain handles is ignored. The
  configuration is left as it is, no error is raised and nothing is returned; the round
  ends like one that stored a value (\<^verbatim>\<open>answered\<close> reset, \<^verbatim>\<open>all_done\<close> set).
\<close>

theorem unroutable_key_is_ignored:
  assumes "key_prev \<notin> set routing_keys"
  shows "\<exists>s'. setval_if_key_is_node key_prev selected s = Inr s'
     \<and> confdict s' = confdict s
     \<and> s' = s\<lparr>control := (control s)\<lparr>answered := False\<rparr>, all_done := True\<rparr>"
  using assms by (simp add: setval_if_key_is_node_def routing_keys_def)

theorem unroutable_key_is_ignored_witness:
  "Str ''gain'' \<notin> set routing_keys
   \<and> (\<exists>s'. setval_if_key_is_node (Str ''gain'') (Num 3) example_app = Inr s'
         \<and> confdict s' = example_conf)"
  using unroutable_key_is_ignored [of "Str ''gain''" "Num 3" example_app]
  by (simp add: routing_keys_def example_app_def PreferenceApp_def initialize_def set_header_def)

text \<open>
  C2 as stated fails: routing the key gain, which the chain does not know, returns
  normally, with the state a successful routing leaves.
\<close>

theorem unroutable_key_is_not_reported:
  "setval_if_key_is_node (Str ''gain'') (Num 3) example_app
     = Inr (example_app\<lparr>control := (control example_app)\<lparr>answered := False\<rparr>, all_done := True\<rparr>)"
  by (simp add: setval_if_key_is_node_def)

text \<open>
  C6, as the code has it: two routings commute when their leaf-keys are distinct and are
  not the pair alsa and sounddevice (which share the destination hw\_params.formatname);
  routing the same leaf-key twice is routing the second value alone, and for a leaf-key
  of the chain the configuration then holds the second value at its destination.
\<close>

theorem routing_commutes_and_last_write_wins:
  "(k1 \<noteq> k2 \<and> \<not> (k1 \<in> set [Str ''alsa'', Str ''sounddevice''] \<and> k2 \<in> set [Str ''alsa'', Str ''sounddevice''])
      \<and> route_twice k1 v1 k2 v2 s = Inr s' \<longrightarrow> route_twice k2 v2 k1 v1 s = Inr s')
   \<and> route_twice k v1 k v2 s = setval_if_key_is_node k v2 s
   \<and> (k \<in> set routing_keys \<and> route_twice k v1 k v2 s = Inr s' \<longrightarrow> routed_value k (confdict s') = Inr (Val v2))"
proof (intro conjI impI)
  assume h: "k1 \<noteq> k2 \<and> \<not> (k1 \<in> set [Str ''alsa'', Str ''sounddevice''] \<and> k2 \<in> set [Str ''alsa'', Str ''sounddevice''])
      \<and> route_twice k1 v1 k2 v2 s = Inr s'"
  then obtain c1 c2 where r1: "route k1 v1 (confdict s) = Inr c1" and r2: "route k2 v2 c1 = Inr c2"
    and s': "s' = post c2 s"
    by (auto simp: route_twice_def setval_as_route confdict_post post_post split: sum.splits)
  from h route_commute [OF _ _ r1 r2] obtain d where "route k2 v2 (confdict s) = Inr d" "route k1 v1 d = Inr c2"
    by blast
  then show "route_twice k2 v2 k1 v1 s = Inr s'"
    by (simp add: route_twice_def setval_as_route confdict_post post_post s')
next
  show again: "route_twice k v1 k v2 s = setval_if_key_is_node k v2 s"
    using route_again [where k = k and ?v1.0 = v1 and c = "confdict s" and ?v2.0 = v2]
    by (auto simp: route_twice_def setval_as_route confdict_post post_post split: sum.splits)
  assume h: "k \<in> set routing_keys \<and> route_twice k v1 k v2 s = Inr s'"
  with again have "setval_if_key_is_node k v2 s = Inr s'"
    by simp
  then obtain c where "route k v2 (confdict s) = Inr c" "s' = post c s"
    by (auto simp: setval_as_route split: sum.splits)
  with h route_read [of k v2 "confdict s" c] show "routed_value k (confdict s') = Inr (Val v2)"
    by (simp add: confdict_post)
qed

theorem routing_commutes_and_last_write_wins_witness:
  "Str ''rate'' \<noteq> Str ''main''
   \<and> (\<exists>s'. route_twice (Str ''rate'') (Num 48000) (Str ''main'') (Str ''hw:1'') example_app = Inr s'
         \<and> route_twice (Str ''main'') (Str ''hw:1'') (Str ''rate'') (Num 48000) example_app = Inr s')
   \<and> Str ''rate'' \<in> set routing_keys
   \<and> routed_after (Str ''rate'') (route_twice (Str ''rate'') (Num 44100) (Str ''rate'') (Num 48000) example_app)
       = Inr (Val (Num 48000))"
proof -
  obtain s1 where s1: "route_twice (Str ''rate'') (Num 48000) (Str ''main'') (Str ''hw:1'') example_app = Inr s1"
    by (simp add: route_twice_def ex_defs nav_defs)
  obtain s2 where s2: "route_twice (Str ''rate'') (Num 44100) (Str ''rate'') (Num 48000) example_app = Inr s2"
    by (simp add: route_twice_def ex_defs nav_defs)
  have k: "Str ''rate'' \<in> set routing_keys"
    by (simp add: routing_keys_def)
  from routing_commutes_and_last_write_wins [where ?k1.0 = "Str ''rate''" and ?k2.0 = "Str ''main''" and ?v1.0 = "Num 48000"
      and ?v2.0 = "Str ''hw:1''" and s = example_app and s' = s1] s1
  have "route_twice (Str ''main'') (Str ''hw:1'') (Str ''rate'') (Num 48000) example_app = Inr s1"
    by simp
  moreover from routing_commutes_and_last_write_wins [where k = "Str ''rate''" and ?v1.0 = "Num 44100" and ?v2.0 = "Num 48000"
      and s = example_app and s' = s2] s2 k
  have "routed_value (Str ''rate'') (confdict s2) = Inr (Val (Num 48000))"
    by simp
  ultimately show ?thesis
    using s1 s2 k by (simp add: routed_after_def)
qed

text \<open>
  C6 as stated fails for the distinct leaf-keys alsa and sounddevice: both are stored under
  hw\_params.formatname, so the order decides which value stays.
\<close>

theorem alsa_and_sounddevice_do_not_commute:
  "routed_after (Str ''alsa'')
     (route_twice (Str ''alsa'') (Str ''PCM_FORMAT_S16_LE'') (Str ''sounddevice'') (Str ''float32'') example_app)
     = Inr (Val (Str ''float32''))
   \<and> routed_after (Str ''alsa'')
     (route_twice (Str ''sounddevice'') (Str ''float32'') (Str ''alsa'') (Str ''PCM_FORMAT_S16_LE'') example_app)
     = Inr (Val (Str ''PCM_FORMAT_S16_LE''))"
  by (simp add: routed_after_def routed_value_def destination_def route_twice_def
      setval_if_key_is_node_def setitem2_def getitem2_def ex_defs nav_defs)

section \<open>The device positions\<close>

text \<open>
  C5: in \<^verbatim>\<open>_setval_if_key_is_node\<close> the three device positions share one branch of the
  chain. On a configuration with a devices dictionary, each of the keys main, monitor and
  input stores its value under devices, at the key itself; routing any other leaf-key
  leaves the devices dictionary as it was; and the leaf-keys with a destination under
  devices are exactly these three.
\<close>

theorem device_keys_share_one_rule:
  assumes c: "confdict s = Obj m" and d: "m (Str ''devices'') = Some (Obj dm)"
  shows "(k \<in> set [Str ''main'', Str ''monitor'', Str ''input''] \<longrightarrow>
       setval_if_key_is_node k v s =
         Inr (s\<lparr>confdict := Obj (m(Str ''devices'' \<mapsto> Obj (dm(k \<mapsto> Val v)))),
                 control := (control s)\<lparr>answered := False\<rparr>, all_done := True\<rparr>))
     \<and> (k \<notin> set [Str ''main'', Str ''monitor'', Str ''input''] \<longrightarrow>
       (\<forall>s'. setval_if_key_is_node k v s = Inr s' \<longrightarrow>
          getitem (confdict s') (Str ''devices'') = Inr (Obj dm)))
     \<and> ((\<exists>p. destination k = Some (Str ''devices'' # p))
          \<longleftrightarrow> k \<in> set [Str ''main'', Str ''monitor'', Str ''input''])"
proof (intro conjI impI allI)
  assume "k \<in> set [Str ''main'', Str ''monitor'', Str ''input'']"
  with c d show "setval_if_key_is_node k v s =
      Inr (s\<lparr>confdict := Obj (m(Str ''devices'' \<mapsto> Obj (dm(k \<mapsto> Val v)))),
              control := (control s)\<lparr>answered := False\<rparr>, all_done := True\<rparr>)"
    by (auto simp: setval_if_key_is_node_def setitem2_def)
next
  fix s'
  assume nk: "k \<notin> set [Str ''main'', Str ''monitor'', Str ''input'']"
    and r: "setval_if_key_is_node k v s = Inr s'"
  from r obtain c' where c': "route k v (confdict s) = Inr c'" and s': "s' = post c' s"
    by (auto simp: setval_as_route split: sum.splits)
  consider (unroutable) "destination k = None"
    | (top) a where "destination k = Some [Str a]" "a \<in> {''filter_domain'', ''filter_algo''}"
    | (sub) a b where "destination k = Some [Str a, Str b]"
        "a \<in> {''hw_params'', ''filter_params'', ''devices''}"
    using destination_shape [of k] by metis
  then have "getitem c' (Str ''devices'') = Inr (Obj dm)"
  proof cases
    case unroutable
    with c' have "c' = confdict s"
      by (simp add: route_def)
    then have "c' = Obj m"
      by (simp only: c)
    with d show ?thesis
      by simp
  next
    case top
    with c' have "setitem (confdict s) (Str a) (Val v) = Inr c'"
      by (simp add: route_def)
    with c d top(2) show ?thesis
      by (auto simp: setitem_Str)
  next
    case sub
    from sub(1) nk have "a \<noteq> ''devices''"
      by (auto simp: destination_def split: if_splits)
    moreover from sub c' have "setitem2 (confdict s) (Str a) (Str b) (Val v) = Inr c'"
      by (simp add: route_def)
    ultimately show ?thesis
      using c d by (auto simp: setitem2_Str)
  qed
  then show "getitem (confdict s') (Str ''devices'') = Inr (Obj dm)"
    by (simp add: s' confdict_post)
next
  show "(\<exists>p. destination k = Some (Str ''devices'' # p))
      \<longleftrightarrow> k \<in> set [Str ''main'', Str ''monitor'', Str ''input'']"
    by (auto simp: destination_def)
qed

theorem device_keys_share_one_rule_witness:
  "confdict example_app = example_conf
   \<and> routed_after (Str ''monitor'')
       (setval_if_key_is_node (Str ''monitor'') (Str ''hw:1'') example_app)
     = Inr (Val (Str ''hw:1''))
   \<and> routed_after (Str ''main'')
       (setval_if_key_is_node (Str ''rate'') (Num 48000) example_app)
     = Inr (Val (Str ''default''))"
proof -
  let ?m = "[Str ''hw_params'' \<mapsto> Obj [Str ''rate'' \<mapsto> Val (Num 44100)],
             Str ''devices'' \<mapsto> Obj [Str ''main'' \<mapsto> Val (Str ''default'')]]"
  let ?dm = "[Str ''main'' \<mapsto> Val (Str ''default'')]"
  have c: "confdict example_app = Obj ?m"
    by (simp add: nav_defs ex_defs)
  have d: "?m (Str ''devices'') = Some (Obj ?dm)"
    by simp
  note monitor = device_keys_share_one_rule
    [where k = "Str ''monitor''" and v = "Str ''hw:1''", OF c d]
  note rate = device_keys_share_one_rule
    [where k = "Str ''rate''" and v = "Num 48000", OF c d]
  have k: "Str ''monitor'' \<in> set [Str ''main'', Str ''monitor'', Str ''input'']"
    by simp
  from conjunct1 [OF monitor] k
  have written: "setval_if_key_is_node (Str ''monitor'') (Str ''hw:1'') example_app =
      Inr (example_app\<lparr>confdict :=
             Obj (?m(Str ''devices'' \<mapsto> Obj (?dm(Str ''monitor'' \<mapsto> Val (Str ''hw:1''))))),
           control := (control example_app)\<lparr>answered := False\<rparr>, all_done := True\<rparr>)"
    by (rule mp)
  have w1: "routed_after (Str ''monitor'')
       (setval_if_key_is_node (Str ''monitor'') (Str ''hw:1'') example_app)
     = Inr (Val (Str ''hw:1''))"
    unfolding written
    by (simp add: routed_after_def routed_value_def destination_def getitem2_def)
  have nk: "Str ''rate'' \<notin> set [Str ''main'', Str ''monitor'', Str ''input'']"
    by simp
  from conjunct1 [OF conjunct2 [OF rate]] nk
  have kept: "\<forall>s'. setval_if_key_is_node (Str ''rate'') (Num 48000) example_app = Inr s' \<longrightarrow>
      getitem (confdict s') (Str ''devices'') = Inr (Obj ?dm)"
    by (rule mp)
  obtain s' where s': "setval_if_key_is_node (Str ''rate'') (Num 48000) example_app = Inr s'"
    by (simp add: nav_defs ex_defs)
  have g: "getitem (confdict s') (Str ''devices'') = Inr (Obj ?dm)"
    by (rule mp [OF spec [OF kept] s'])
  have w2: "routed_after (Str ''main'')
       (setval_if_key_is_node (Str ''rate'') (Num 48000) example_app)
     = Inr (Val (Str ''default''))"
    unfolding s'
    by (simp add: routed_after_def routed_value_def destination_def getitem2_def g)
  have "confdict example_app = example_conf"
    unfolding c example_conf_def ..
  with w1 w2 show ?thesis
    by (intro conjI)
qed

text \<open>
  In preference.py the second condition of the chain,
  \<^verbatim>\<open>choice == "alsa" or "sounddevice"\<close>, holds for every choice: whatever is not rate
  is stored under hw\_params.fomatname, and the chain never returns False.
\<close>

lemma pref_conf_or_chain:
  "choice \<noteq> Str ''rate'' \<Longrightarrow>
   pref_conf yes choice ky s =
     write_then_guess yes s
       (setitem2 (ca_confdict s) (Str ''hw_params'') (Str ''fomatname'') (Val ky))"
  by (simp add: pref_conf_def)

lemma pref_conf_never_false: "pref_conf yes choice ky s \<noteq> Inr (ReturnsFalse, s')"
proof (cases "choice = Str ''rate''")
  case True
  then show ?thesis
    by (simp add: pref_conf_def write_then_guess_def split: sum.splits)
next
  case False
  then show ?thesis
    by (simp add: pref_conf_or_chain write_then_guess_def split: sum.splits)
qed

lemma pref_conf_example:
  "(case pref_conf yes (Str ''main'') (Str ''hw:1'') example_configuration_app of
      Inl e \<Rightarrow> False
    | Inr (r, s') \<Rightarrow> r = ReturnsNone
        \<and> getitem2 (ca_confdict s') (Str ''devices'') (Str ''main'') = Inr (Val (Str ''default''))
        \<and> getitem2 (ca_confdict s') (Str ''hw_params'') (Str ''fomatname'') = Inr (Val (Str ''hw:1'')))"
  by (simp add: pref_conf_def write_then_guess_def guess_def setitem2_def getitem2_def
      example_configuration_app_def example_conf_def Let_def)

section \<open>dump\_defaults\<close>

text \<open>On a \<^verbatim>\<open>config\<close> without the key, \<^verbatim>\<open>description=False\<close> raises KeyError.\<close>

lemma dump_defaults_absent:
  "m (Str ''__description__'') = None \<Longrightarrow> dump_defaults dumps puts False (Obj m) = Inl KeyError"
  by (simp add: dump_defaults_def)



section \<open>The filter driver\<close>

text \<open>
  C3: when the desired block or the observed block does not have exactly
  \<open>periodSize\<close> samples, \<^verbatim>\<open>tune\<close> fails with BlockSizeMismatch; no output block and
  no updated filter come back.
\<close>

theorem tune_rejects_block_size_mismatch:
  assumes "length desired \<noteq> fm_periodsize (filter_fm drv)
     \<or> length data_in \<noteq> fm_periodsize (filter_fm drv)"
  shows "tune rule drv desired data_in = Inl BlockSizeMismatch"
  using assms by (auto simp: tune_def apply_filter_def)

theorem tune_rejects_block_size_mismatch_witness:
  "length (replicate 200 (0::int)) \<noteq> 256
   \<and> tune (\<lambda>d x fm. (d, fm))
       \<lparr>shape = 32, filter_fm = \<lparr>fm_model = ''NLMS'', fm_shape = 32, fm_mu = 1,
          w = replicate 32 0, fm_lambda = 1, fm_periodsize = 256\<rparr>\<rparr>
       (replicate 200 (0::int)) (replicate 200 0) = Inl BlockSizeMismatch"
  using tune_rejects_block_size_mismatch [of "replicate 200 (0::int)"
      "\<lparr>shape = 32, filter_fm = \<lparr>fm_model = ''NLMS'', fm_shape = 32, fm_mu = 1,
          w = replicate 32 0, fm_lambda = 1, fm_periodsize = 256\<rparr>\<rparr>"
      "replicate 200 0" "\<lambda>d x fm. (d, fm)"]
  by simp

text \<open>
  C9: \<^verbatim>\<open>get_filter_weights\<close> returns the coefficient vector of the filter and leaves
  the driver, its shape and every field of its filter as they were.
\<close>

theorem get_filter_weights_reads_only:
  "fst (get_filter_weights drv) = w (filter_fm drv) \<and> snd (get_filter_weights drv) = drv"
  by (simp add: get_filter_weights_def)

end
